theory Spec2Isabelle
  imports Complex_Main "HOL-Library.AList" "HOL-Library.Sublist"
begin

section \<open>VGG: the configuration table and the stage builder\<close>

text \<open>
  An element of a configuration list of \<open>cfgs\<close> is either the string \<open>'M'\<close> (a 2x2 max-pool)
  or an integer, the output width of a 3x3 convolution.
\<close>

datatype layer_spec = M | Ch int

definition cfgs :: "string \<Rightarrow> layer_spec list option" where
  "cfgs name =
     (if name = ''vgg11'' then
        Some [Ch 64, M, Ch 128, M, Ch 256, Ch 256, M, Ch 512, Ch 512, M, Ch 512, Ch 512, M]
      else if name = ''vgg13'' then
        Some [Ch 64, Ch 64, M, Ch 128, Ch 128, M, Ch 256, Ch 256, M, Ch 512, Ch 512, M,
              Ch 512, Ch 512, M]
      else if name = ''vgg16'' then
        Some [Ch 64, Ch 64, M, Ch 128, Ch 128, M, Ch 256, Ch 256, Ch 256, M,
              Ch 512, Ch 512, Ch 512, M, Ch 512, Ch 512, Ch 512, M]
      else if name = ''vgg19'' then
        Some [Ch 64, Ch 64, M, Ch 128, Ch 128, M, Ch 256, Ch 256, Ch 256, Ch 256, M,
              Ch 512, Ch 512, Ch 512, Ch 512, M, Ch 512, Ch 512, Ch 512, Ch 512, M]
      else None)"

text \<open>
  The modules of the feature stack. The layer classes are constructor arguments of the model
  (\<open>conv_layer\<close>, \<open>norm_layer\<close>, \<open>act_layer\<close>); they are kept as the name of the class.
  \<open>Conv k i o ks p\<close> is \<open>conv_layer(i, o, kernel_size=ks, padding=p)\<close>, \<open>Norm k v\<close> is
  \<open>norm_layer(v)\<close>, \<open>Act k b\<close> is \<open>act_layer(inplace=b)\<close> and \<open>MaxPool2d ks s\<close> is
  \<open>nn.MaxPool2d(kernel_size=ks, stride=s)\<close>.
\<close>

datatype layer =
    Conv string int int int int
  | Norm string int
  | Act string bool
  | MaxPool2d int int

fun is_conv :: "layer \<Rightarrow> bool" where
  "is_conv (Conv k i oc ks p) = True"
| "is_conv l = False"

fun is_norm :: "layer \<Rightarrow> bool" where
  "is_norm (Norm k v) = True"
| "is_norm l = False"

fun is_act :: "layer \<Rightarrow> bool" where
  "is_act (Act k b) = True"
| "is_act l = False"

fun is_pool :: "layer \<Rightarrow> bool" where
  "is_pool (MaxPool2d ks s) = True"
| "is_pool l = False"

text \<open>Decimal printing of an integer, as an f-string does it.\<close>

definition digit_char :: "nat \<Rightarrow> char" where
  "digit_char d = ''0123456789'' ! d"

function str_nat :: "nat \<Rightarrow> string" where
  "str_nat n = (if n < 10 then [digit_char n] else str_nat (n div 10) @ [digit_char (n mod 10)])"
  by pat_completeness auto
termination
  by (relation "measure id") auto

declare str_nat.simps [simp del]

definition str_int :: "int \<Rightarrow> string" where
  "str_int i = (if i < 0 then CHR ''-'' # str_nat (nat (- i)) else str_nat (nat i))"

text \<open>One entry of \<open>feature_info\<close>: \<open>dict(num_chs=..., reduction=..., module=...)\<close>.\<close>

record stage_info =
  num_chs :: int
  reduction :: int
  module :: string

text \<open>
  The variables of the loop of \<open>VGG.__init__\<close>; \<open>infos\<close> is \<open>self.feature_info\<close> while the
  loop runs.
\<close>

record loop_state =
  prev_chs :: int
  net_stride :: int
  layers :: "layer list"
  infos :: "stage_info list"

definition stage_step ::
  "string \<Rightarrow> string \<Rightarrow> string option \<Rightarrow> loop_state \<Rightarrow> layer_spec \<Rightarrow> loop_state" where
  "stage_step act_layer conv_layer norm_layer st v =
     (let last_idx = int (length (layers st)) - 1 in
      case v of
        M \<Rightarrow>
          st\<lparr>infos := infos st @
                 [\<lparr>num_chs = prev_chs st, reduction = net_stride st,
                   module = ''features.'' @ str_int last_idx\<rparr>],
             layers := layers st @ [MaxPool2d 2 2],
             net_stride := net_stride st * 2\<rparr>
      | Ch c \<Rightarrow>
          (let conv2d = Conv conv_layer (prev_chs st) c 3 1 in
           st\<lparr>layers := layers st @
                  (case norm_layer of
                     Some nl \<Rightarrow> [conv2d, Norm nl c, Act act_layer True]
                   | None \<Rightarrow> [conv2d, Act act_layer True]),
              prev_chs := c\<rparr>))"

definition stage_loop ::
  "string \<Rightarrow> string \<Rightarrow> string option \<Rightarrow> int \<Rightarrow> layer_spec list \<Rightarrow> loop_state" where
  "stage_loop act_layer conv_layer norm_layer in_chans cfg =
     foldl (stage_step act_layer conv_layer norm_layer)
       \<lparr>prev_chs = in_chans, net_stride = 1, layers = [], infos = []\<rparr> cfg"

text \<open>\<open>self.feature_info\<close> after the statement that follows the loop.\<close>

definition final_feature_info ::
  "string \<Rightarrow> string \<Rightarrow> string option \<Rightarrow> int \<Rightarrow> layer_spec list \<Rightarrow> stage_info list" where
  "final_feature_info act_layer conv_layer norm_layer in_chans cfg =
     (let st = stage_loop act_layer conv_layer norm_layer in_chans cfg in
      infos st @
        [\<lparr>num_chs = prev_chs st, reduction = net_stride st,
          module = ''features.'' @ str_int (int (length (layers st)) - 1)\<rparr>])"

section \<open>The head: \<open>ConvMlp\<close> and the classifier head\<close>

datatype error = AssertionError | RuntimeError | IndexError

text \<open>
  A Python float is kept as the rational number it denotes (every finite float is one).
  \<open>int(x)\<close> on a float truncates towards zero.
\<close>

definition py_int :: "rat \<Rightarrow> int" where
  "py_int x = (if 0 \<le> x then \<lfloor>x\<rfloor> else \<lceil>x\<rceil>)"

text \<open>
  The product \<open>out_features * mlp_ratio\<close> of an integer and a float is a float: the exact
  product rounded to a representable number. The rounding belongs to the arithmetic of the
  machine, so the product is a parameter \<open>fmul\<close> of the constructors below, and
  \<open>exact_mul\<close> is the product where the exact result is representable.
\<close>

definition exact_mul :: "int \<Rightarrow> rat \<Rightarrow> rat" where
  "exact_mul n x = of_int n * x"

text \<open>
  \<open>conv_layer(c_in, c_out, ksize, bias=has_bias)\<close> as \<open>ConvMlp\<close> builds it; no padding and
  stride 1 are the defaults of the constructor.
\<close>

record conv_mod =
  conv_kind :: string
  c_in :: int
  c_out :: int
  ksize :: int
  has_bias :: bool

record ConvMlp =
  input_kernel_size :: int
  fc1 :: conv_mod
  act1 :: layer
  drop_mod :: rat
  fc2 :: conv_mod
  act2 :: layer

definition ConvMlp_init ::
  "(int \<Rightarrow> rat \<Rightarrow> rat) \<Rightarrow> int \<Rightarrow> int \<Rightarrow> int \<Rightarrow> rat \<Rightarrow> rat \<Rightarrow> string \<Rightarrow> string \<Rightarrow>
   ConvMlp" where
  "ConvMlp_init fmul in_features out_features kernel_size mlp_ratio drop_rate act_layer
     conv_layer =
     (let mid_features = py_int (fmul out_features mlp_ratio) in
      \<lparr>input_kernel_size = kernel_size,
       fc1 = \<lparr>conv_kind = conv_layer, c_in = in_features, c_out = mid_features,
              ksize = kernel_size, has_bias = True\<rparr>,
       act1 = Act act_layer True,
       drop_mod = drop_rate,
       fc2 = \<lparr>conv_kind = conv_layer, c_in = mid_features, c_out = out_features,
              ksize = 1, has_bias = True\<rparr>,
       act2 = Act act_layer True\<rparr>)"

text \<open>
  The hidden width as the specification words it: the product rounded to the nearest
  integer.
\<close>

definition spec_mid_features :: "(int \<Rightarrow> rat \<Rightarrow> rat) \<Rightarrow> int \<Rightarrow> rat \<Rightarrow> int" where
  "spec_mid_features fmul out_features mlp_ratio = round (fmul out_features mlp_ratio)"

subsection \<open>The forward pass of \<open>ConvMlp\<close> on shapes\<close>

text \<open>
  The forward pass is followed on the shape of the tensor, a list of sizes. The two
  operations of the tensor library it calls are taken with their documented shape rules:
  \<open>F.adaptive_avg_pool2d\<close> wants a 3-D or 4-D input whose non-batch sizes are not zero and
  gives the two last sizes the requested values; a convolution with stride 1 and no padding
  wants a 3-D or 4-D input with the channel count of its weight and spatial sizes not
  smaller than the kernel, and gives \<open>size - kernel + 1\<close>. Activation and dropout keep the
  shape.
\<close>

definition adaptive_avg_pool2d :: "int list \<Rightarrow> int \<times> int \<Rightarrow> error + int list" where
  "adaptive_avg_pool2d shp output_size =
     (if length shp \<noteq> 3 \<and> length shp \<noteq> 4 then Inl RuntimeError
      else if list_ex (\<lambda>d. d \<le> 0) (drop (length shp - 3) shp) then Inl RuntimeError
      else Inr (take (length shp - 2) shp @ [fst output_size, snd output_size]))"

definition conv_forward :: "conv_mod \<Rightarrow> int list \<Rightarrow> error + int list" where
  "conv_forward c shp =
     (if length shp \<noteq> 3 \<and> length shp \<noteq> 4 then Inl RuntimeError
      else
        (let ch = shp ! (length shp - 3); h = shp ! (length shp - 2); w = shp ! (length shp - 1) in
         if ch \<noteq> c_in c then Inl RuntimeError
         else if h < ksize c \<or> w < ksize c then Inl RuntimeError
         else Inr (take (length shp - 3) shp @ [c_out c, h - ksize c + 1, w - ksize c + 1])))"

definition ConvMlp_forward :: "ConvMlp \<Rightarrow> int list \<Rightarrow> error + int list" where
  "ConvMlp_forward m shp =
     (if length shp < 2 then Inl IndexError
      else
        (let h = shp ! (length shp - 2); w = shp ! (length shp - 1) in
         case (if h < input_kernel_size m \<or> w < input_kernel_size m
               then adaptive_avg_pool2d shp
                      (max (input_kernel_size m) h, max (input_kernel_size m) w)
               else Inr shp) of
           Inl e \<Rightarrow> Inl e
         | Inr x \<Rightarrow>
             (case conv_forward (fc1 m) x of
                Inl e \<Rightarrow> Inl e
              | Inr x1 \<Rightarrow> conv_forward (fc2 m) x1)))"

subsection \<open>The classifier head\<close>

text \<open>
  Modelled from the spec: the class \<open>ClassifierHead\<close> of \<open>timm.layers\<close> is not among the
  sources. Its state is the pooling kind (average, max, or none), the dropout rate and the
  final layer, a linear projection or the identity (section 4.3).
\<close>

datatype pooling_kind = AvgPool | MaxPool | NoPool

datatype fc_layer = Linear int int | Identity

record ClassifierHead =
  head_in_features :: int
  head_pool :: pooling_kind
  head_drop_rate :: rat
  fc :: fc_layer

text \<open>
  Modelled from the spec: the constructor of \<open>ClassifierHead\<close> and its method \<open>reset\<close> are
  not among the sources. Section 4.3: the head pools the embedding
  (average, max, or none), applies dropout and a final linear projection to \<open>num_classes\<close>;
  \<open>reset\<close> replaces the final linear layer and/or the pooling strategy, and with
  \<open>new_num_classes <= 0\<close> the linear layer becomes an identity.
\<close>

definition ClassifierHead_init :: "int \<Rightarrow> int \<Rightarrow> pooling_kind \<Rightarrow> rat \<Rightarrow> ClassifierHead" where
  "ClassifierHead_init in_features num_classes pool_type drop_rate =
     \<lparr>head_in_features = in_features, head_pool = pool_type, head_drop_rate = drop_rate,
      fc = (if num_classes \<le> 0 then Identity else Linear in_features num_classes)\<rparr>"

text \<open>
  Modelled from the spec: \<open>ClassifierHead.reset(num_classes, pool_type)\<close>, see above; a
  pooling kind of \<open>None\<close> keeps the present one.
\<close>

definition ClassifierHead_reset ::
  "ClassifierHead \<Rightarrow> int \<Rightarrow> pooling_kind option \<Rightarrow> ClassifierHead" where
  "ClassifierHead_reset h num_classes pool_type =
     h\<lparr>head_pool := (case pool_type of None \<Rightarrow> head_pool h | Some p \<Rightarrow> p),
       fc := (if num_classes \<le> 0 then Identity else Linear (head_in_features h) num_classes)\<rparr>"

section \<open>The model\<close>

record VGG =
  num_classes :: int
  drop_rate :: rat
  grad_checkpointing :: bool
  use_norm :: bool
  feature_info :: "stage_info list"
  features :: "layer list"
  num_features :: int
  head_hidden_size :: int
  pre_logits :: ConvMlp
  head :: ClassifierHead

text \<open>
  \<open>VGG.__init__\<close>. The assertion on \<open>output_stride\<close> is its first statement; the weights
  that \<open>_initialize_weights\<close> draws are not part of the model.
\<close>

definition VGG_init ::
  "(int \<Rightarrow> rat \<Rightarrow> rat) \<Rightarrow> layer_spec list \<Rightarrow> int \<Rightarrow> int \<Rightarrow> int \<Rightarrow> rat \<Rightarrow> string \<Rightarrow> string \<Rightarrow>
   string option \<Rightarrow> pooling_kind \<Rightarrow> rat \<Rightarrow> error + VGG" where
  "VGG_init fmul cfg n_classes in_chans output_stride mlp_ratio act_layer conv_layer norm_layer
     global_pool d_rate =
     (if output_stride \<noteq> 32 then Inl AssertionError
      else
        (let st = stage_loop act_layer conv_layer norm_layer in_chans cfg in
         Inr \<lparr>num_classes = n_classes,
              drop_rate = d_rate,
              grad_checkpointing = False,
              use_norm = (norm_layer \<noteq> None),
              feature_info = final_feature_info act_layer conv_layer norm_layer in_chans cfg,
              features = layers st,
              num_features = prev_chs st,
              head_hidden_size = 4096,
              pre_logits =
                ConvMlp_init fmul (prev_chs st) 4096 7 mlp_ratio d_rate act_layer conv_layer,
              head = ClassifierHead_init 4096 n_classes global_pool d_rate\<rparr>))"

definition reset_classifier :: "VGG \<Rightarrow> int \<Rightarrow> pooling_kind option \<Rightarrow> VGG" where
  "reset_classifier self n_classes global_pool =
     (let self1 = self\<lparr>num_classes := n_classes\<rparr> in
      self1\<lparr>head := ClassifierHead_reset (head self1) n_classes global_pool\<rparr>)"

section \<open>The checkpoint remapper\<close>

text \<open>
  A tensor is its shape and its elements. \<open>reshape\<close> changes the shape only, so the
  elements are kept as one opaque value (the buffer in row-major order).
\<close>

record 'a tensor =
  shape :: "nat list"
  elems :: 'a

definition numel :: "'a tensor \<Rightarrow> nat" where
  "numel t = prod_list (shape t)"

text \<open>
  \<open>Tensor.reshape\<close> of the tensor library, by its documented rule: at most one requested
  size may be \<open>-1\<close>, and it is inferred from the number of elements, which the other sizes
  must divide; without a \<open>-1\<close> the sizes must multiply to the number of elements. Every
  other request raises \<open>RuntimeError\<close>.
\<close>

definition reshape :: "'a tensor \<Rightarrow> int list \<Rightarrow> error + 'a tensor" where
  "reshape t dims =
     (let known = prod_list (filter (\<lambda>d. d \<noteq> - 1) dims); n = int (numel t) in
      if list_ex (\<lambda>d. d < - 1) dims then Inl RuntimeError
      else if length (filter (\<lambda>d. d = - 1) dims) > 1 then Inl RuntimeError
      else if length (filter (\<lambda>d. d = - 1) dims) = 1 then
        (if known = 0 \<or> n mod known \<noteq> 0 then Inl RuntimeError
         else Inr (t\<lparr>shape := map (\<lambda>d. nat (if d = - 1 then n div known else d)) dims\<rparr>))
      else if known \<noteq> n then Inl RuntimeError
      else Inr (t\<lparr>shape := map nat dims\<rparr>))"

text \<open>
  \<open>s.replace(old, new)\<close>: every occurrence of \<open>old\<close> in \<open>s\<close>, found from the left and not
  overlapping, becomes \<open>new\<close>. With an empty \<open>old\<close>, \<open>new\<close> goes before every character
  and at the end.
\<close>

function replace_from :: "string \<Rightarrow> string \<Rightarrow> string \<Rightarrow> string" where
  "replace_from old new [] = []"
| "replace_from old new (c # cs) =
     (if old \<noteq> [] \<and> prefix old (c # cs)
      then new @ replace_from old new (drop (length old) (c # cs))
      else c # replace_from old new cs)"
  by pat_completeness auto
termination
  by (relation "measure (\<lambda>(old, new, s). length s)") (auto simp: prefix_def)

definition str_replace :: "string \<Rightarrow> string \<Rightarrow> string \<Rightarrow> string" where
  "str_replace s old new =
     (if old = [] then new @ concat (map (\<lambda>c. c # new) s) else replace_from old new s)"

text \<open>\<open>sub in s\<close> on strings: \<open>sub\<close> occurs in \<open>s\<close>.\<close>

fun str_in :: "string \<Rightarrow> string \<Rightarrow> bool" where
  "str_in sub [] = (sub = [])"
| "str_in sub (c # cs) = (prefix sub (c # cs) \<or> str_in sub cs)"

text \<open>The three replacements of \<open>_filter_fn\<close>, in their order.\<close>

definition rename_key :: "string \<Rightarrow> string" where
  "rename_key k =
     str_replace
       (str_replace (str_replace k ''classifier.0'' ''pre_logits.fc1'')
          ''classifier.3'' ''pre_logits.fc2'')
       ''classifier.6'' ''head.fc''"

text \<open>The two conditional reshapes of \<open>_filter_fn\<close>; both tests read the key as it came.\<close>

definition remap_value :: "string \<Rightarrow> 'a tensor \<Rightarrow> error + 'a tensor" where
  "remap_value k v =
     (case (if str_in ''classifier.0.weight'' k then reshape v [- 1, 512, 7, 7] else Inr v) of
        Inl e \<Rightarrow> Inl e
      | Inr v1 \<Rightarrow>
          (if str_in ''classifier.3.weight'' k then reshape v1 [- 1, 4096, 1, 1] else Inr v1))"

text \<open>
  The loop of \<open>_filter_fn\<close> over \<open>state_dict.items()\<close>. A dictionary is the list of its
  items in insertion order, with distinct keys; \<open>out_dict[k_r] = v\<close> is \<open>AList.update\<close>,
  which replaces the value of a key that is present, at its place, and appends a new key.
\<close>

fun filter_loop ::
  "(string \<times> 'a tensor) list \<Rightarrow> (string \<times> 'a tensor) list \<Rightarrow>
   error + (string \<times> 'a tensor) list" where
  "filter_loop [] out_dict = Inr out_dict"
| "filter_loop ((k, v) # items) out_dict =
     (case remap_value k v of
        Inl e \<Rightarrow> Inl e
      | Inr v' \<Rightarrow> filter_loop items (AList.update (rename_key k) v' out_dict))"

definition filter_fn :: "(string \<times> 'a tensor) list \<Rightarrow> error + (string \<times> 'a tensor) list" where
  "filter_fn state_dict = filter_loop state_dict []"

text \<open>A key has a legacy name in it when one of the three replaced strings occurs in it.\<close>

definition has_legacy :: "string \<Rightarrow> bool" where
  "has_legacy k =
     (str_in ''classifier.0'' k \<or> str_in ''classifier.3'' k \<or> str_in ''classifier.6'' k)"

definition starts_legacy :: "string \<Rightarrow> bool" where
  "starts_legacy k =
     (prefix ''classifier.0'' k \<or> prefix ''classifier.3'' k \<or> prefix ''classifier.6'' k)"

section \<open>Properties of the stage builder\<close>

lemma str_int_minus_one: "str_int (- 1) = ''-1''"
  by (simp add: str_int_def str_nat.simps digit_char_def)

lemma stage_step_M:
  "stage_step a c n st M =
     st\<lparr>infos := infos st @
            [\<lparr>num_chs = prev_chs st, reduction = net_stride st,
              module = ''features.'' @ str_int (int (length (layers st)) - 1)\<rparr>],
        layers := layers st @ [MaxPool2d 2 2],
        net_stride := net_stride st * 2\<rparr>"
  by (simp add: stage_step_def)

lemma stage_step_Ch_norm:
  "stage_step a c (Some nl) st (Ch v) =
     st\<lparr>layers := layers st @ [Conv c (prev_chs st) v 3 1, Norm nl v, Act a True],
        prev_chs := v\<rparr>"
  by (simp add: stage_step_def)

lemma stage_step_Ch_plain:
  "stage_step a c None st (Ch v) =
     st\<lparr>layers := layers st @ [Conv c (prev_chs st) v 3 1, Act a True], prev_chs := v\<rparr>"
  by (simp add: stage_step_def)

lemma infos_foldl_extends:
  "\<exists>ys. infos (foldl (stage_step a c n) st cfg) = infos st @ ys"
proof (induction cfg arbitrary: st)
  case Nil
  show ?case by simp
next
  case (Cons v cfg)
  obtain ys where ys: "infos (foldl (stage_step a c n) (stage_step a c n st v) cfg)
      = infos (stage_step a c n st v) @ ys"
    using Cons.IH by blast
  have "\<exists>zs. infos (stage_step a c n st v) = infos st @ zs"
    by (cases v) (simp_all add: stage_step_def Let_def)
  then obtain zs where "infos (stage_step a c n st v) = infos st @ zs" ..
  with ys show ?case by simp
qed

lemma layers_foldl_extends:
  "\<exists>ys. layers (foldl (stage_step a c n) st cfg) = layers st @ ys"
proof (induction cfg arbitrary: st)
  case Nil
  show ?case by simp
next
  case (Cons v cfg)
  obtain ys where ys: "layers (foldl (stage_step a c n) (stage_step a c n st v) cfg)
      = layers (stage_step a c n st v) @ ys"
    using Cons.IH by blast
  have "\<exists>zs. layers (stage_step a c n st v) = layers st @ zs"
    by (cases v) (simp_all add: stage_step_def Let_def)
  then obtain zs where "layers (stage_step a c n st v) = layers st @ zs" ..
  with ys show ?case by simp
qed

text \<open>
  Claim C1. For each of the four entries of the variant table (vgg11, vgg13, vgg16, vgg19),
  whatever the input channels and the layer classes, the configuration has exactly five
  markers, the loop records five stage entries and emits five max-pool layers, and the
  entry recorded after the loop has cumulative stride 32 and 512 channels. A marker leaves
  the channel count as it is and doubles the accumulated stride.
\<close>

theorem stage_builder_variants:
  assumes "cfgs name = Some cfg"
  shows "length (filter (\<lambda>v. v = M) cfg) = 5
    \<and> length (infos (stage_loop a c n i cfg)) = 5
    \<and> length (filter is_pool (layers (stage_loop a c n i cfg))) = 5
    \<and> reduction (last (final_feature_info a c n i cfg)) = 32
    \<and> num_chs (last (final_feature_info a c n i cfg)) = 512
    \<and> prev_chs (stage_step a c n st M) = prev_chs st
    \<and> net_stride (stage_step a c n st M) = 2 * net_stride st"
proof -
  have step: "prev_chs (stage_step a c n st M) = prev_chs st
      \<and> net_stride (stage_step a c n st M) = 2 * net_stride st"
    by (simp add: stage_step_M)
  from assms consider "cfg = [Ch 64, M, Ch 128, M, Ch 256, Ch 256, M, Ch 512, Ch 512, M, Ch 512, Ch 512, M]"
    | "cfg = [Ch 64, Ch 64, M, Ch 128, Ch 128, M, Ch 256, Ch 256, M, Ch 512, Ch 512, M,
              Ch 512, Ch 512, M]"
    | "cfg = [Ch 64, Ch 64, M, Ch 128, Ch 128, M, Ch 256, Ch 256, Ch 256, M,
              Ch 512, Ch 512, Ch 512, M, Ch 512, Ch 512, Ch 512, M]"
    | "cfg = [Ch 64, Ch 64, M, Ch 128, Ch 128, M, Ch 256, Ch 256, Ch 256, Ch 256, M,
              Ch 512, Ch 512, Ch 512, Ch 512, M, Ch 512, Ch 512, Ch 512, Ch 512, M]"
    by (auto simp: cfgs_def split: if_splits)
  then have "length (filter (\<lambda>v. v = M) cfg) = 5
    \<and> length (infos (stage_loop a c n i cfg)) = 5
    \<and> length (filter is_pool (layers (stage_loop a c n i cfg))) = 5
    \<and> reduction (last (final_feature_info a c n i cfg)) = 32
    \<and> num_chs (last (final_feature_info a c n i cfg)) = 512"
    by cases (cases n; simp add: final_feature_info_def stage_loop_def stage_step_def Let_def)+
  with step show ?thesis by simp
qed

theorem stage_builder_variants_witness:
  "cfgs ''vgg16'' = Some [Ch 64, Ch 64, M, Ch 128, Ch 128, M, Ch 256, Ch 256, Ch 256, M,
              Ch 512, Ch 512, Ch 512, M, Ch 512, Ch 512, Ch 512, M]
   \<and> reduction (last (final_feature_info ''ReLU'' ''Conv2d'' None 3
        [Ch 64, Ch 64, M, Ch 128, Ch 128, M, Ch 256, Ch 256, Ch 256, M,
              Ch 512, Ch 512, Ch 512, M, Ch 512, Ch 512, Ch 512, M])) = 32
   \<and> num_chs (last (final_feature_info ''ReLU'' ''Conv2d'' None 3
        [Ch 64, Ch 64, M, Ch 128, Ch 128, M, Ch 256, Ch 256, Ch 256, M,
              Ch 512, Ch 512, Ch 512, M, Ch 512, Ch 512, Ch 512, M])) = 512"
proof -
  have h: "cfgs ''vgg16'' = Some [Ch 64, Ch 64, M, Ch 128, Ch 128, M, Ch 256, Ch 256, Ch 256, M,
              Ch 512, Ch 512, Ch 512, M, Ch 512, Ch 512, Ch 512, M]"
    by (simp add: cfgs_def)
  from stage_builder_variants [OF h, of "''ReLU''" "''Conv2d''" None 3] h
  show ?thesis by blast
qed


text \<open>
  Claim C2. The model built from the vgg16 configuration with a normalization layer has, for
  every number of input channels and whatever the layer classes, the feature stack written
  out below: 13 convolutions, 13 normalization layers, 13 activations and 5 max-pools, 44
  modules in all. A channel width emits a 3x3 convolution with padding 1 from the previous
  width, then the normalization, then the activation; a marker emits one max-pool with
  kernel 2 and stride 2.
\<close>

theorem vgg16_norm_feature_stack:
  "\<exists>cfg m. cfgs ''vgg16'' = Some cfg
     \<and> VGG_init fm cfg nc i 32 r a c (Some nl) gp d = Inr m
     \<and> features m =
         [Conv c i 64 3 1, Norm nl 64, Act a True,
          Conv c 64 64 3 1, Norm nl 64, Act a True,
          MaxPool2d 2 2,
          Conv c 64 128 3 1, Norm nl 128, Act a True,
          Conv c 128 128 3 1, Norm nl 128, Act a True,
          MaxPool2d 2 2,
          Conv c 128 256 3 1, Norm nl 256, Act a True,
          Conv c 256 256 3 1, Norm nl 256, Act a True,
          Conv c 256 256 3 1, Norm nl 256, Act a True,
          MaxPool2d 2 2,
          Conv c 256 512 3 1, Norm nl 512, Act a True,
          Conv c 512 512 3 1, Norm nl 512, Act a True,
          Conv c 512 512 3 1, Norm nl 512, Act a True,
          MaxPool2d 2 2,
          Conv c 512 512 3 1, Norm nl 512, Act a True,
          Conv c 512 512 3 1, Norm nl 512, Act a True,
          Conv c 512 512 3 1, Norm nl 512, Act a True,
          MaxPool2d 2 2]
     \<and> length (filter is_conv (features m)) = 13
     \<and> length (filter is_norm (features m)) = 13
     \<and> length (filter is_act (features m)) = 13
     \<and> length (filter is_pool (features m)) = 5
     \<and> length (features m) = 44
     \<and> layers (stage_step a c (Some nl) st (Ch v))
           = layers st @ [Conv c (prev_chs st) v 3 1, Norm nl v, Act a True]
     \<and> prev_chs (stage_step a c (Some nl) st (Ch v)) = v
     \<and> layers (stage_step a c (Some nl) st M) = layers st @ [MaxPool2d 2 2]"
  by (simp add: cfgs_def VGG_init_def stage_loop_def stage_step_Ch_norm stage_step_M)

text \<open>
  Claim C8. With an \<open>output_stride\<close> other than 32 the constructor ends with the assertion
  error, its result holding no model; with 32 it returns the model, whose feature stack and
  stage entries are those of the stage builder.
\<close>

theorem output_stride_assertion:
  "(output_stride \<noteq> 32 \<longrightarrow>
      VGG_init fm cfg nc i output_stride r a c n gp d = Inl AssertionError)
   \<and> (output_stride = 32 \<longrightarrow>
      (\<exists>m. VGG_init fm cfg nc i output_stride r a c n gp d = Inr m
          \<and> features m = layers (stage_loop a c n i cfg)
          \<and> feature_info m = final_feature_info a c n i cfg))"
  by (simp add: VGG_init_def Let_def)

theorem output_stride_assertion_witness:
  "VGG_init exact_mul [Ch 64, M] 1000 3 16 1 ''ReLU'' ''Conv2d'' None AvgPool 0 = Inl AssertionError
   \<and> (\<exists>m. VGG_init exact_mul [Ch 64, M] 1000 3 32 1 ''ReLU'' ''Conv2d'' None AvgPool 0 = Inr m
          \<and> features m = layers (stage_loop ''ReLU'' ''Conv2d'' None 3 [Ch 64, M]))"
proof -
  have a16: "VGG_init exact_mul [Ch 64, M] 1000 3 16 1 ''ReLU'' ''Conv2d'' None AvgPool 0
      = Inl AssertionError"
    using output_stride_assertion
      [of 16 exact_mul "[Ch 64, M]" 1000 3 1 "''ReLU''" "''Conv2d''" None AvgPool 0]
    by simp
  have a32: "\<exists>m. VGG_init exact_mul [Ch 64, M] 1000 3 32 1 ''ReLU'' ''Conv2d'' None AvgPool 0 = Inr m
      \<and> features m = layers (stage_loop ''ReLU'' ''Conv2d'' None 3 [Ch 64, M])
      \<and> feature_info m = final_feature_info ''ReLU'' ''Conv2d'' None 3 [Ch 64, M]"
    using output_stride_assertion
      [of 32 exact_mul "[Ch 64, M]" 1000 3 1 "''ReLU''" "''Conv2d''" None AvgPool 0]
    by simp
  from a16 a32 show ?thesis by blast
qed

text \<open>
  Claim C10. A configuration that starts with the marker is accepted by the constructor: it
  returns a model and no error. The marker branch runs on the initial state of the loop,
  where no layer exists yet, so the index of the last layer is -1: the branch records the
  entry with the input channels, stride 1 and the module name \<open>features.-1\<close>, appends the
  max-pool as the first layer and doubles the stride. The entry stays the first one: the
  stage entries of the model are this entry, the entries of the rest of the configuration
  and the entry written after the loop, and the feature stack of the model starts with the
  max-pool.
\<close>

theorem marker_first_stage_info:
  "\<exists>m tl fin ls.
     VGG_init fm (M # rest) nc i 32 r a c n gp d = Inr m
     \<and> stage_step a c n \<lparr>prev_chs = i, net_stride = 1, layers = [], infos = []\<rparr> M
         = \<lparr>prev_chs = i, net_stride = 2, layers = [MaxPool2d 2 2],
            infos = [\<lparr>num_chs = i, reduction = 1, module = ''features.-1''\<rparr>]\<rparr>
     \<and> infos (stage_loop a c n i (M # rest))
         = \<lparr>num_chs = i, reduction = 1, module = ''features.-1''\<rparr> # tl
     \<and> feature_info m
         = \<lparr>num_chs = i, reduction = 1, module = ''features.-1''\<rparr> # tl @ [fin]
     \<and> hd (feature_info m) = \<lparr>num_chs = i, reduction = 1, module = ''features.-1''\<rparr>
     \<and> features m = MaxPool2d 2 2 # ls
     \<and> hd (features m) = MaxPool2d 2 2"
proof -
  let ?e = "\<lparr>num_chs = i, reduction = 1, module = ''features.-1''\<rparr>"
  let ?ini = "\<lparr>prev_chs = i, net_stride = 1, layers = [], infos = []\<rparr>"
  let ?one = "\<lparr>prev_chs = i, net_stride = 2, layers = [MaxPool2d 2 2], infos = [?e]\<rparr>"
  let ?full = "stage_loop a c n i (M # rest)"
  have st1: "stage_step a c n ?ini M = ?one"
    by (simp add: stage_step_M str_int_minus_one)
  have loop: "?full = foldl (stage_step a c n) ?one rest"
    by (simp add: stage_loop_def st1)
  obtain tl where tl: "infos ?full = ?e # tl"
    using infos_foldl_extends [of a c n ?one rest] loop by auto
  obtain ls where ls: "layers ?full = MaxPool2d 2 2 # ls"
    using layers_foldl_extends [of a c n ?one rest] loop by auto
  let ?fin = "\<lparr>num_chs = prev_chs ?full, reduction = net_stride ?full,
      module = ''features.'' @ str_int (int (length (layers ?full)) - 1)\<rparr>"
  have fi: "final_feature_info a c n i (M # rest) = ?e # tl @ [?fin]"
    using tl by (simp add: final_feature_info_def Let_def)
  obtain m where m: "VGG_init fm (M # rest) nc i 32 r a c n gp d = Inr m"
      and fim: "feature_info m = final_feature_info a c n i (M # rest)"
      and fs: "features m = layers ?full"
    by (simp add: VGG_init_def Let_def)
  from m st1 tl fi fim fs ls show ?thesis
    by (intro exI [of _ m] exI [of _ tl] exI [of _ ?fin] exI [of _ ls]) simp
qed

section \<open>Properties of the head\<close>

lemma py_int_nonneg:
  "0 \<le> x \<Longrightarrow> of_int (py_int x) \<le> x \<and> x < of_int (py_int x) + 1"
  by (simp add: py_int_def) linarith

lemma py_int_neg:
  "x < 0 \<Longrightarrow> x \<le> of_int (py_int x) \<and> of_int (py_int x) - 1 < x"
  by (simp add: py_int_def) linarith

lemma py_int_of_int: "py_int (of_int z) = z"
  by (simp add: py_int_def)

lemma py_int_integer: "x \<in> \<int> \<Longrightarrow> py_int x = round x"
  by (auto simp: Ints_def py_int_of_int)

text \<open>
  Claim C9. \<open>reset_classifier\<close> leaves the feature stack, the head adapter and the stage
  entries of every model as they are, and stores the new number of classes; the result is
  the model with only \<open>num_classes\<close> and \<open>head\<close> replaced. A number of classes that is zero
  or negative gives a head whose linear layer is the identity, and no error.
\<close>

theorem reset_classifier_frame:
  "features (reset_classifier self n gp) = features self
   \<and> pre_logits (reset_classifier self n gp) = pre_logits self
   \<and> feature_info (reset_classifier self n gp) = feature_info self
   \<and> num_classes (reset_classifier self n gp) = n
   \<and> reset_classifier self n gp
        = self\<lparr>num_classes := n, head := head (reset_classifier self n gp)\<rparr>
   \<and> (n \<le> 0 \<longrightarrow> fc (head (reset_classifier self n gp)) = Identity)
   \<and> (0 < n \<longrightarrow> fc (head (reset_classifier self n gp))
                  = Linear (head_in_features (head self)) n)"
  by (simp add: reset_classifier_def ClassifierHead_reset_def Let_def)

theorem reset_classifier_frame_witness:
  "fc (head (reset_classifier
        \<lparr>num_classes = 1000, drop_rate = 0, grad_checkpointing = False, use_norm = False,
         feature_info = [\<lparr>num_chs = 64, reduction = 1, module = ''features.1''\<rparr>],
         features = [Conv ''Conv2d'' 3 64 3 1, Act ''ReLU'' True],
         num_features = 64, head_hidden_size = 4096,
         pre_logits = ConvMlp_init exact_mul 64 4096 7 1 0 ''ReLU'' ''Conv2d'',
         head = ClassifierHead_init 4096 1000 AvgPool 0\<rparr> (- 5) None)) = Identity
   \<and> fc (head (reset_classifier
        \<lparr>num_classes = 1000, drop_rate = 0, grad_checkpointing = False, use_norm = False,
         feature_info = [\<lparr>num_chs = 64, reduction = 1, module = ''features.1''\<rparr>],
         features = [Conv ''Conv2d'' 3 64 3 1, Act ''ReLU'' True],
         num_features = 64, head_hidden_size = 4096,
         pre_logits = ConvMlp_init exact_mul 64 4096 7 1 0 ''ReLU'' ''Conv2d'',
         head = ClassifierHead_init 4096 1000 AvgPool 0\<rparr> 10 (Some MaxPool))) = Linear 4096 10"
proof -
  let ?m = "\<lparr>num_classes = 1000, drop_rate = 0, grad_checkpointing = False, use_norm = False,
         feature_info = [\<lparr>num_chs = 64, reduction = 1, module = ''features.1''\<rparr>],
         features = [Conv ''Conv2d'' 3 64 3 1, Act ''ReLU'' True],
         num_features = 64, head_hidden_size = 4096,
         pre_logits = ConvMlp_init exact_mul 64 4096 7 1 0 ''ReLU'' ''Conv2d'',
         head = ClassifierHead_init 4096 1000 AvgPool 0\<rparr>"
  have neg: "fc (head (reset_classifier ?m (- 5) None)) = Identity"
    using reset_classifier_frame [of ?m "- 5" None] by simp
  have pos: "fc (head (reset_classifier ?m 10 (Some MaxPool))) = Linear 4096 10"
    using reset_classifier_frame [of ?m 10 "Some MaxPool"]
    by (simp add: ClassifierHead_init_def)
  from neg pos show ?thesis by simp
qed

text \<open>
  Claim C6. The forward pass of the head adapter, followed on shapes: for a 3-D or 4-D input
  with the adapter's channel count and positive sizes, one of whose two spatial sizes is
  smaller than the kernel size, the pass returns a shape and no error. The input is pooled
  to \<open>max(kernel_size, size)\<close> along each spatial dimension, and the output has the spatial
  sizes \<open>max(kernel_size, size) - kernel_size + 1\<close>, which are at least 1.
\<close>

theorem convmlp_small_input:
  assumes "0 < k" and "0 < h" and "0 < w" and "0 < ch" and "h < k \<or> w < k"
    and "length lead \<le> 1"
  shows "ConvMlp_forward (ConvMlp_init fm ch outf k r d a c) (lead @ [ch, h, w])
           = Inr (lead @ [outf, max k h - k + 1, max k w - k + 1])
         \<and> 1 \<le> max k h - k + 1 \<and> 1 \<le> max k w - k + 1
         \<and> adaptive_avg_pool2d (lead @ [ch, h, w]) (max k h, max k w)
             = Inr (lead @ [ch, max k h, max k w])"
proof -
  from assms(6) consider "lead = []" | n where "lead = [n]"
    by (cases lead) auto
  then show ?thesis
    using assms(1-5)
    by cases
      (auto simp: ConvMlp_forward_def ConvMlp_init_def adaptive_avg_pool2d_def
         conv_forward_def Let_def)
qed

theorem convmlp_small_input_witness:
  "ConvMlp_forward (ConvMlp_init exact_mul 512 4096 7 1 0 ''ReLU'' ''Conv2d'') [1, 512, 5, 5]
     = Inr [1, 4096, 1, 1]"
  using convmlp_small_input [of 7 5 5 512 "[1]" exact_mul 4096 1 0 "''ReLU''" "''Conv2d''"]
  by simp

text \<open>
  Claim C7, as stated, fails. With \<open>out_features = 5\<close> and \<open>mlp_ratio = 0.75\<close> the float
  product is the exact product: 5, 0.75 and 3.75 are all representable, so nothing is
  rounded. The hidden width is then 3, and the product rounded to the nearest integer is 4.
\<close>

theorem mid_features_round_counterexample:
  "exact_mul 5 (3 / 4) = 15 / 4
   \<and> c_out (fc1 (ConvMlp_init exact_mul 512 5 7 (3 / 4) 0 ''ReLU'' ''Conv2d'')) = 3
   \<and> spec_mid_features exact_mul 5 (3 / 4) = 4"
  by (simp add: ConvMlp_init_def Let_def py_int_def spec_mid_features_def round_def
      floor_eq_iff exact_mul_def)

text \<open>
  Claim C7, amended. Whatever the float product \<open>p = out_features * mlp_ratio\<close> is, the
  hidden width of the head adapter is \<open>int(p)\<close>, the product truncated towards zero: the
  integer below a product that is not negative, the integer above a negative one, and the
  rounded product when the product is an integer. The first convolution maps \<open>in_features\<close>
  to this width with the given kernel size, the second maps it to \<open>out_features\<close> with
  kernel size 1, and both have a bias.
\<close>

theorem mid_features_truncates:
  "c_out (fc1 (ConvMlp_init fm inc outf k r d a c)) = py_int (fm outf r)
   \<and> c_in (fc1 (ConvMlp_init fm inc outf k r d a c)) = inc
   \<and> ksize (fc1 (ConvMlp_init fm inc outf k r d a c)) = k
   \<and> has_bias (fc1 (ConvMlp_init fm inc outf k r d a c))
   \<and> c_in (fc2 (ConvMlp_init fm inc outf k r d a c)) = py_int (fm outf r)
   \<and> c_out (fc2 (ConvMlp_init fm inc outf k r d a c)) = outf
   \<and> ksize (fc2 (ConvMlp_init fm inc outf k r d a c)) = 1
   \<and> has_bias (fc2 (ConvMlp_init fm inc outf k r d a c))
   \<and> (0 \<le> fm outf r \<longrightarrow>
        of_int (py_int (fm outf r)) \<le> fm outf r
        \<and> fm outf r < of_int (py_int (fm outf r)) + 1)
   \<and> (fm outf r < 0 \<longrightarrow>
        fm outf r \<le> of_int (py_int (fm outf r))
        \<and> of_int (py_int (fm outf r)) - 1 < fm outf r)
   \<and> (fm outf r \<in> \<int> \<longrightarrow>
        py_int (fm outf r) = spec_mid_features fm outf r)"
proof -
  have fields: "c_out (fc1 (ConvMlp_init fm inc outf k r d a c)) = py_int (fm outf r)
   \<and> c_in (fc1 (ConvMlp_init fm inc outf k r d a c)) = inc
   \<and> ksize (fc1 (ConvMlp_init fm inc outf k r d a c)) = k
   \<and> has_bias (fc1 (ConvMlp_init fm inc outf k r d a c))
   \<and> c_in (fc2 (ConvMlp_init fm inc outf k r d a c)) = py_int (fm outf r)
   \<and> c_out (fc2 (ConvMlp_init fm inc outf k r d a c)) = outf
   \<and> ksize (fc2 (ConvMlp_init fm inc outf k r d a c)) = 1
   \<and> has_bias (fc2 (ConvMlp_init fm inc outf k r d a c))"
    by (simp add: ConvMlp_init_def Let_def)
  have "fm outf r \<in> \<int> \<longrightarrow> py_int (fm outf r) = spec_mid_features fm outf r"
    by (simp add: spec_mid_features_def py_int_integer)
  with fields py_int_nonneg [of "fm outf r"] py_int_neg [of "fm outf r"]
  show ?thesis by blast
qed

theorem mid_features_truncates_witness:
  "exact_mul 4096 (1 / 2) = 2048
   \<and> c_out (fc1 (ConvMlp_init exact_mul 512 4096 7 (1 / 2) 0 ''ReLU'' ''Conv2d'')) = 2048
   \<and> c_in (fc2 (ConvMlp_init exact_mul 512 4096 7 (1 / 2) 0 ''ReLU'' ''Conv2d'')) = 2048
   \<and> c_out (fc2 (ConvMlp_init exact_mul 512 4096 7 (1 / 2) 0 ''ReLU'' ''Conv2d'')) = 4096
   \<and> spec_mid_features exact_mul 4096 (1 / 2) = 2048
   \<and> exact_mul 7 (1 / 2) = 7 / 2
   \<and> c_out (fc1 (ConvMlp_init exact_mul 512 7 7 (1 / 2) 0 ''ReLU'' ''Conv2d'')) = 3"
proof -
  have p: "exact_mul 4096 (1 / 2) = 2048"
    by (simp add: exact_mul_def)
  have z: "exact_mul 4096 (1 / 2) \<in> \<int>"
    by (simp add: p)
  have v: "py_int (exact_mul 4096 (1 / 2)) = 2048"
    by (simp add: p py_int_def)
  have q: "exact_mul 7 (1 / 2) = 7 / 2"
    by (simp add: exact_mul_def)
  have w: "py_int (exact_mul 7 (1 / 2)) = 3"
    by (simp add: q py_int_def floor_eq_iff)
  have big: "c_out (fc1 (ConvMlp_init exact_mul 512 4096 7 (1 / 2) 0 ''ReLU'' ''Conv2d'')) = 2048
   \<and> c_in (fc2 (ConvMlp_init exact_mul 512 4096 7 (1 / 2) 0 ''ReLU'' ''Conv2d'')) = 2048
   \<and> c_out (fc2 (ConvMlp_init exact_mul 512 4096 7 (1 / 2) 0 ''ReLU'' ''Conv2d'')) = 4096
   \<and> spec_mid_features exact_mul 4096 (1 / 2) = 2048"
    using mid_features_truncates
      [of exact_mul 512 4096 7 "1 / 2" 0 "''ReLU''" "''Conv2d''"] z v
    by simp
  have small: "c_out (fc1 (ConvMlp_init exact_mul 512 7 7 (1 / 2) 0 ''ReLU'' ''Conv2d'')) = 3"
    using mid_features_truncates
      [of exact_mul 512 7 7 "1 / 2" 0 "''ReLU''" "''Conv2d''"] w
    by simp
  from p q big small show ?thesis by simp
qed

section \<open>Properties of the checkpoint remapper\<close>

subsection \<open>Strings: occurrence and replacement\<close>

lemma str_in_Nil: "str_in [] s"
  by (cases s) simp_all

lemma str_in_append_left: "str_in (a @ b) s \<Longrightarrow> str_in a s"
  by (induction s) (auto dest: append_prefixD)

lemma replace_from_id: "\<not> str_in old s \<Longrightarrow> replace_from old new s = s"
  by (induction s) auto

lemma str_replace_id: "\<not> str_in old s \<Longrightarrow> str_replace s old new = s"
  using str_in_Nil [of s] by (auto simp: str_replace_def replace_from_id)

lemma prefix_split: "prefix old s \<Longrightarrow> s = old @ drop (length old) s"
  by (auto simp: prefix_def)

lemma count_replace_le:
  "count_list new x \<le> count_list old x \<Longrightarrow>
   count_list (replace_from old new s) x \<le> count_list s x"
proof (induction old new s rule: replace_from.induct)
  case (1 old new)
  show ?case by simp
next
  case (2 old new c cs)
  show ?case
  proof (cases "old \<noteq> [] \<and> prefix old (c # cs)")
    case True
    then have s: "c # cs = old @ drop (length old) (c # cs)"
      using prefix_split by blast
    have "count_list (c # cs) x
        = count_list old x + count_list (drop (length old) (c # cs)) x"
      by (subst s) simp
    moreover have "count_list (replace_from old new (drop (length old) (c # cs))) x
        \<le> count_list (drop (length old) (c # cs)) x"
      using 2 True by blast
    ultimately show ?thesis
      using True 2(3) by simp
  next
    case False
    then have "count_list (replace_from old new cs) x \<le> count_list cs x"
      using 2 by blast
    with False show ?thesis by auto
  qed
qed

lemma count_replace_less:
  "count_list new x < count_list old x \<Longrightarrow> old \<noteq> [] \<Longrightarrow> str_in old s \<Longrightarrow>
   count_list (replace_from old new s) x < count_list s x"
proof (induction s rule: length_induct)
  case (1 s)
  show ?case
  proof (cases s)
    case Nil
    with 1(3,4) show ?thesis by simp
  next
    case (Cons c cs)
    show ?thesis
    proof (cases "prefix old (c # cs)")
      case True
      then have s: "c # cs = old @ drop (length old) (c # cs)"
        using prefix_split by blast
      have "count_list (c # cs) x
          = count_list old x + count_list (drop (length old) (c # cs)) x"
        by (subst s) simp
      moreover have "count_list (replace_from old new (drop (length old) (c # cs))) x
          \<le> count_list (drop (length old) (c # cs)) x"
        using count_replace_le [of new x old] 1(2) by simp
      ultimately show ?thesis
        using True 1(2,3) Cons by simp
    next
      case False
      with 1(4) Cons have "str_in old cs" by simp
      then have "count_list (replace_from old new cs) x < count_list cs x"
        using 1 Cons by simp
      with False Cons show ?thesis by auto
    qed
  qed
qed

lemma count_str_replace_le:
  "old \<noteq> [] \<Longrightarrow> count_list new x \<le> count_list old x \<Longrightarrow>
   count_list (str_replace s old new) x \<le> count_list s x"
  by (simp add: str_replace_def count_replace_le)

lemma count_str_replace_less:
  "old \<noteq> [] \<Longrightarrow> count_list new x < count_list old x \<Longrightarrow> str_in old s \<Longrightarrow>
   count_list (str_replace s old new) x < count_list s x"
  by (simp add: str_replace_def count_replace_less)

lemma rename_key_id: "\<not> has_legacy k \<Longrightarrow> rename_key k = k"
  by (simp add: has_legacy_def rename_key_def str_replace_id)

lemma rename_key_changes:
  assumes "has_legacy k"
  shows "count_list (rename_key k) CHR ''s'' < count_list k CHR ''s''"
proof -
  let ?r1 = "str_replace k ''classifier.0'' ''pre_logits.fc1''"
  let ?r2 = "str_replace ?r1 ''classifier.3'' ''pre_logits.fc2''"
  let ?r3 = "str_replace ?r2 ''classifier.6'' ''head.fc''"
  have le1: "count_list ?r1 CHR ''s'' \<le> count_list k CHR ''s''"
    by (rule count_str_replace_le) simp_all
  have le2: "count_list ?r2 CHR ''s'' \<le> count_list ?r1 CHR ''s''"
    by (rule count_str_replace_le) simp_all
  have le3: "count_list ?r3 CHR ''s'' \<le> count_list ?r2 CHR ''s''"
    by (rule count_str_replace_le) simp_all
  have r: "rename_key k = ?r3" by (simp add: rename_key_def)
  consider (a) "str_in ''classifier.0'' k"
    | (b) "\<not> str_in ''classifier.0'' k" "str_in ''classifier.3'' k"
    | (c) "\<not> str_in ''classifier.0'' k" "\<not> str_in ''classifier.3'' k" "str_in ''classifier.6'' k"
    using assms by (auto simp: has_legacy_def)
  then show ?thesis
  proof cases
    case a
    have "count_list ?r1 CHR ''s'' < count_list k CHR ''s''"
      by (rule count_str_replace_less) (simp_all add: a)
    with le2 le3 r show ?thesis by simp
  next
    case b
    have e1: "?r1 = k" using b(1) by (rule str_replace_id)
    have "count_list ?r2 CHR ''s'' < count_list ?r1 CHR ''s''"
      by (rule count_str_replace_less) (simp_all add: e1 b)
    with le1 le3 r show ?thesis by simp
  next
    case c
    have e1: "?r1 = k" using c(1) by (rule str_replace_id)
    have e2: "?r2 = k" using c(2) by (simp add: e1 str_replace_id)
    have "count_list ?r3 CHR ''s'' < count_list ?r2 CHR ''s''"
      by (rule count_str_replace_less) (simp_all add: e2 c)
    with e2 r show ?thesis by simp
  qed
qed

lemma rename_key_fixed_iff: "rename_key k = k \<longleftrightarrow> \<not> has_legacy k"
  using rename_key_id [of k] rename_key_changes [of k] by auto

subsection \<open>The loop over the items\<close>

lemma remap_value_plain: "\<not> has_legacy k \<Longrightarrow> remap_value k v = Inr v"
proof -
  assume h: "\<not> has_legacy k"
  have a: "\<not> str_in ''classifier.0.weight'' k"
    using h str_in_append_left [of "''classifier.0''" "''.weight''" k]
    by (auto simp: has_legacy_def)
  have b: "\<not> str_in ''classifier.3.weight'' k"
    using h str_in_append_left [of "''classifier.3''" "''.weight''" k]
    by (auto simp: has_legacy_def)
  from a b show ?thesis by (simp add: remap_value_def)
qed

lemma filter_loop_keys:
  "filter_loop sd out = Inr res \<Longrightarrow>
   fst ` set res = fst ` set out \<union> rename_key ` fst ` set sd"
proof (induction sd arbitrary: out)
  case Nil
  then show ?case by simp
next
  case (Cons kv sd)
  obtain k v where kv: "kv = (k, v)" by (cases kv)
  from Cons.prems kv obtain v' where v': "remap_value k v = Inr v'"
    and rest: "filter_loop sd (AList.update (rename_key k) v' out) = Inr res"
    by (auto split: sum.splits)
  from Cons.IH [OF rest] show ?case
    by (auto simp: kv dom_update)
qed

lemma filter_loop_untouched:
  "filter_loop sd out = Inr res \<Longrightarrow> k' \<notin> rename_key ` fst ` set sd \<Longrightarrow>
   map_of res k' = map_of out k'"
proof (induction sd arbitrary: out)
  case Nil
  then show ?case by simp
next
  case (Cons kv sd)
  obtain k v where kv: "kv = (k, v)" by (cases kv)
  from Cons.prems(1) kv obtain v' where v': "remap_value k v = Inr v'"
    and rest: "filter_loop sd (AList.update (rename_key k) v' out) = Inr res"
    by (auto split: sum.splits)
  from Cons.prems(2) kv have ne: "rename_key k \<noteq> k'" and notin: "k' \<notin> rename_key ` fst ` set sd"
    by auto
  from Cons.IH [OF rest notin] ne show ?case
    by (simp add: update_conv')
qed

lemma filter_loop_entry:
  "filter_loop sd out = Inr res \<Longrightarrow> distinct (map fst sd) \<Longrightarrow> (k, v) \<in> set sd \<Longrightarrow>
   (\<forall>k2 \<in> fst ` set sd. k2 \<noteq> k \<longrightarrow> rename_key k2 \<noteq> rename_key k) \<Longrightarrow>
   \<exists>v'. remap_value k v = Inr v' \<and> map_of res (rename_key k) = Some v'"
proof (induction sd arbitrary: out)
  case Nil
  then show ?case by simp
next
  case (Cons kv sd)
  obtain k1 v1 where kv: "kv = (k1, v1)" by (cases kv)
  from Cons.prems(1) kv obtain v' where v': "remap_value k1 v1 = Inr v'"
    and rest: "filter_loop sd (AList.update (rename_key k1) v' out) = Inr res"
    by (auto split: sum.splits)
  show ?case
  proof (cases "(k, v) = (k1, v1)")
    case True
    have notin: "k \<notin> fst ` set sd"
      using Cons.prems(2) kv True by auto
    have "rename_key k \<notin> rename_key ` fst ` set sd"
    proof
      assume "rename_key k \<in> rename_key ` fst ` set sd"
      then obtain k2 where k2: "k2 \<in> fst ` set sd" and eq: "rename_key k = rename_key k2"
        by blast
      from k2 notin have "k2 \<noteq> k" by blast
      moreover from k2 have "k2 \<in> fst ` set (kv # sd)" by simp
      ultimately have "rename_key k2 \<noteq> rename_key k"
        using Cons.prems(4) by blast
      with eq show False by simp
    qed
    from filter_loop_untouched [OF rest this] True v' show ?thesis
      by (simp add: update_conv')
  next
    case False
    with Cons.prems(3) kv have mem: "(k, v) \<in> set sd" by auto
    have d: "distinct (map fst sd)" using Cons.prems(2) by simp
    have nc: "\<forall>k2 \<in> fst ` set sd. k2 \<noteq> k \<longrightarrow> rename_key k2 \<noteq> rename_key k"
      using Cons.prems(4) by simp
    from Cons.IH [OF rest d mem nc] show ?thesis .
  qed
qed

lemma update_fresh: "k \<notin> fst ` set al \<Longrightarrow> AList.update k v al = al @ [(k, v)]"
  by (induction al) auto

lemma filter_loop_plain:
  "distinct (map fst sd) \<Longrightarrow> \<forall>k \<in> fst ` set sd. \<not> has_legacy k \<Longrightarrow>
   fst ` set sd \<inter> fst ` set out = {} \<Longrightarrow> filter_loop sd out = Inr (out @ sd)"
proof (induction sd arbitrary: out)
  case Nil
  then show ?case by simp
next
  case (Cons kv sd)
  obtain k v where kv: "kv = (k, v)" by (cases kv)
  have nl: "\<not> has_legacy k" using Cons.prems(2) kv by simp
  have fresh: "k \<notin> fst ` set out" using Cons.prems(3) kv by auto
  have step: "filter_loop (kv # sd) out = filter_loop sd (out @ [(k, v)])"
    by (simp add: kv remap_value_plain [OF nl] rename_key_id [OF nl] update_fresh [OF fresh])
  have d: "distinct (map fst sd)" using Cons.prems(1) by simp
  have l: "\<forall>k \<in> fst ` set sd. \<not> has_legacy k" using Cons.prems(2) by simp
  have disj: "fst ` set sd \<inter> fst ` set (out @ [(k, v)]) = {}"
    using Cons.prems(1,3) kv by auto
  from Cons.IH [OF d l disj] step kv show ?case by simp
qed

lemma filter_loop_distinct:
  "filter_loop sd out = Inr res \<Longrightarrow> distinct (map fst out) \<Longrightarrow> distinct (map fst res)"
proof (induction sd arbitrary: out)
  case Nil
  then show ?case by simp
next
  case (Cons kv sd)
  obtain k v where kv: "kv = (k, v)" by (cases kv)
  from Cons.prems(1) kv obtain v' where
    rest: "filter_loop sd (AList.update (rename_key k) v' out) = Inr res"
    by (auto split: sum.splits)
  from Cons.IH [OF rest] Cons.prems(2) show ?case
    by (simp add: distinct_update)
qed

lemma filter_fn_plain:
  "distinct (map fst sd) \<Longrightarrow> \<forall>k \<in> fst ` set sd. \<not> has_legacy k \<Longrightarrow> filter_fn sd = Inr sd"
  using filter_loop_plain [of sd "[]"] by (simp add: filter_fn_def)

lemma reshape_first:
  "reshape v [- 1, 512, 7, 7]
     = (if 25088 dvd numel v then Inr (v\<lparr>shape := [numel v div 25088, 512, 7, 7]\<rparr>)
        else Inl RuntimeError)"
proof -
  have a: "int (numel v) mod 25088 = 0 \<longleftrightarrow> 25088 dvd numel v"
    by presburger
  have b: "nat (int (numel v) div 25088) = numel v div 25088"
    by (simp add: nat_div_distrib)
  show ?thesis
    by (simp add: reshape_def Let_def a b)
qed

lemma reshape_second:
  "reshape v [- 1, 4096, 1, 1]
     = (if 4096 dvd numel v then Inr (v\<lparr>shape := [numel v div 4096, 4096, 1, 1]\<rparr>)
        else Inl RuntimeError)"
proof -
  have a: "int (numel v) mod 4096 = 0 \<longleftrightarrow> 4096 dvd numel v"
    by presburger
  have b: "nat (int (numel v) div 4096) = numel v div 4096"
    by (simp add: nat_div_distrib)
  show ?thesis
    by (simp add: reshape_def Let_def a b)
qed

lemma numel_reshaped_first:
  "25088 dvd numel v \<Longrightarrow> numel (v\<lparr>shape := [numel v div 25088, 512, 7, 7]\<rparr>) = numel v"
  by (auto simp: numel_def)

lemma remap_value_returns:
  assumes "str_in ''classifier.0.weight'' k \<longrightarrow> 25088 dvd numel v"
    and "str_in ''classifier.3.weight'' k \<longrightarrow> 4096 dvd numel v"
  shows "\<exists>v'. remap_value k v = Inr v'"
  using assms
  by (auto simp: remap_value_def reshape_first reshape_second numel_reshaped_first)

lemma filter_loop_returns:
  "\<forall>(k, v) \<in> set sd. \<exists>v'. remap_value k v = Inr v' \<Longrightarrow> \<exists>res. filter_loop sd out = Inr res"
proof (induction sd arbitrary: out)
  case Nil
  show ?case by simp
next
  case (Cons kv sd)
  obtain k v where kv: "kv = (k, v)" by (cases kv)
  from Cons.prems kv obtain v' where v': "remap_value k v = Inr v'" by auto
  from Cons.prems have "\<forall>(k, v) \<in> set sd. \<exists>v'. remap_value k v = Inr v'" by simp
  from Cons.IH [OF this, of "AList.update (rename_key k) v' out"] v' kv
  show ?case by simp
qed

lemma remap_value_first: "remap_value ''classifier.0.weight'' t = reshape t [- 1, 512, 7, 7]"
  by (simp add: remap_value_def split: sum.splits)

lemma remap_value_second: "remap_value ''classifier.3.weight'' t = reshape t [- 1, 4096, 1, 1]"
  by (simp add: remap_value_def)

lemma remap_value_third: "remap_value ''classifier.6.weight'' t = Inr t"
  by (simp add: remap_value_def)

lemma rename_first: "rename_key ''classifier.0.weight'' = ''pre_logits.fc1.weight''"
  by (simp add: rename_key_def str_replace_def)

lemma rename_second: "rename_key ''classifier.3.weight'' = ''pre_logits.fc2.weight''"
  by (simp add: rename_key_def str_replace_def)

lemma rename_third: "rename_key ''classifier.6.weight'' = ''head.fc.weight''"
  by (simp add: rename_key_def str_replace_def)

lemma starts_legacy_has_legacy: "starts_legacy k \<Longrightarrow> has_legacy k"
  by (cases k) (auto simp: starts_legacy_def has_legacy_def)

lemma filter_fn_distinct: "filter_fn sd = Inr out \<Longrightarrow> distinct (map fst out)"
  using filter_loop_distinct [of sd "[]" out] by (simp add: filter_fn_def)

lemma rename_key_count_le:
  "count_list (rename_key k) CHR ''s'' \<le> count_list k CHR ''s''"
proof (cases "has_legacy k")
  case True
  then show ?thesis using rename_key_changes [of k] by simp
next
  case False
  then show ?thesis by (simp add: rename_key_id)
qed

lemma rename_not_onto:
  assumes fin: "finite K" and leg: "\<exists>k \<in> K. has_legacy k"
  shows "rename_key ` K \<noteq> K"
proof
  assume eq: "rename_key ` K = K"
  let ?c = "\<lambda>k. count_list k CHR ''s''"
  have inj: "inj_on rename_key K"
    using fin eq by (simp add: finite_surj_inj)
  have "sum ?c K = sum ?c (rename_key ` K)" by (simp add: eq)
  also have "\<dots> = sum (\<lambda>k. ?c (rename_key k)) K"
    using inj by (simp add: sum.reindex)
  also have "\<dots> < sum ?c K"
  proof (rule sum_strict_mono_ex1 [OF fin])
    show "\<forall>k \<in> K. ?c (rename_key k) \<le> ?c k"
      by (simp add: rename_key_count_le)
    show "\<exists>k \<in> K. ?c (rename_key k) < ?c k"
      using leg rename_key_changes by blast
  qed
  finally show False by simp
qed

subsection \<open>The claims on the remapper\<close>

text \<open>
  Claim C3, as stated, fails. A second legacy weight of flat shape \<open>(4096, 2048)\<close>, which is
  \<open>(out, mid)\<close> with \<open>mid = 2048\<close>, is reshaped to \<open>(2048, 4096, 1, 1)\<close> and not to
  \<open>(out, mid, 1, 1) = (4096, 2048, 1, 1)\<close>, since the second size of the reshape is the
  constant 4096. In the same map the first legacy weight is renamed to a key that a later
  item also has, and the value of the later item is the one that stays.
\<close>

theorem remap_reshape_counterexample:
  "filter_fn
     [(''classifier.3.weight'', \<lparr>shape = [4096, 2048], elems = (1::nat)\<rparr>),
      (''classifier.0.weight'', \<lparr>shape = [4096, 25088], elems = 2\<rparr>),
      (''pre_logits.fc1.weight'', \<lparr>shape = [7], elems = 3\<rparr>)]
   = Inr [(''pre_logits.fc2.weight'', \<lparr>shape = [2048, 4096, 1, 1], elems = 1\<rparr>),
          (''pre_logits.fc1.weight'', \<lparr>shape = [7], elems = 3\<rparr>)]
   \<and> [2048, 4096, 1, 1] \<noteq> [4096, 2048, 1, 1 :: nat]
   \<and> [7] \<noteq> [4096, 512, 7, 7 :: nat]"
  by (simp add: filter_fn_def remap_value_def reshape_def numel_def rename_key_def
        str_replace_def Let_def)

text \<open>
  Claim C3, amended. For a checkpoint map with distinct keys on which the remapper returns:
  the tensor under \<open>classifier.0.weight\<close> has a number of elements \<open>n\<close> that 25088 divides
  and is found under \<open>pre_logits.fc1.weight\<close> with shape \<open>(n / 25088, 512, 7, 7)\<close>, which is
  \<open>(out, 512, 7, 7)\<close> for a flat shape \<open>(out, 25088)\<close>; the tensor under
  \<open>classifier.3.weight\<close> has a number of elements that 4096 divides and is found under
  \<open>pre_logits.fc2.weight\<close> with shape \<open>(n / 4096, 4096, 1, 1)\<close>, which is
  \<open>(out, 4096, 1, 1)\<close> for a flat shape \<open>(out, 4096)\<close>; the tensor under
  \<open>classifier.6.weight\<close> is found under \<open>head.fc.weight\<close> as it was. Each of the three holds
  when no other key of the map is renamed to the same new key. The remapper returns
  whenever every tensor under a key containing \<open>classifier.0.weight\<close> has a multiple of
  25088 elements and every tensor under a key containing \<open>classifier.3.weight\<close> a multiple
  of 4096.
\<close>

theorem remap_legacy_weights:
  "(filter_fn sd = Inr out \<and> distinct (map fst sd)
      \<and> (''classifier.0.weight'', t) \<in> set sd
      \<and> (\<forall>k2 \<in> fst ` set sd.
            k2 \<noteq> ''classifier.0.weight'' \<longrightarrow> rename_key k2 \<noteq> ''pre_logits.fc1.weight'')
    \<longrightarrow> 25088 dvd numel t
        \<and> map_of out ''pre_logits.fc1.weight''
            = Some (t\<lparr>shape := [numel t div 25088, 512, 7, 7]\<rparr>)
        \<and> (\<forall>n. shape t = [n, 25088] \<longrightarrow>
              map_of out ''pre_logits.fc1.weight'' = Some (t\<lparr>shape := [n, 512, 7, 7]\<rparr>)))
   \<and> (filter_fn sd = Inr out \<and> distinct (map fst sd)
      \<and> (''classifier.3.weight'', t) \<in> set sd
      \<and> (\<forall>k2 \<in> fst ` set sd.
            k2 \<noteq> ''classifier.3.weight'' \<longrightarrow> rename_key k2 \<noteq> ''pre_logits.fc2.weight'')
    \<longrightarrow> 4096 dvd numel t
        \<and> map_of out ''pre_logits.fc2.weight''
            = Some (t\<lparr>shape := [numel t div 4096, 4096, 1, 1]\<rparr>)
        \<and> (\<forall>n. shape t = [n, 4096] \<longrightarrow>
              map_of out ''pre_logits.fc2.weight'' = Some (t\<lparr>shape := [n, 4096, 1, 1]\<rparr>)))
   \<and> (filter_fn sd = Inr out \<and> distinct (map fst sd)
      \<and> (''classifier.6.weight'', t) \<in> set sd
      \<and> (\<forall>k2 \<in> fst ` set sd.
            k2 \<noteq> ''classifier.6.weight'' \<longrightarrow> rename_key k2 \<noteq> ''head.fc.weight'')
    \<longrightarrow> map_of out ''head.fc.weight'' = Some t)
   \<and> ((\<forall>(k, v) \<in> set sd.
          (str_in ''classifier.0.weight'' k \<longrightarrow> 25088 dvd numel v)
          \<and> (str_in ''classifier.3.weight'' k \<longrightarrow> 4096 dvd numel v))
    \<longrightarrow> (\<exists>res. filter_fn sd = Inr res))"
proof -
  have first: "25088 dvd numel t
        \<and> map_of out ''pre_logits.fc1.weight''
            = Some (t\<lparr>shape := [numel t div 25088, 512, 7, 7]\<rparr>)
        \<and> (\<forall>n. shape t = [n, 25088] \<longrightarrow>
              map_of out ''pre_logits.fc1.weight'' = Some (t\<lparr>shape := [n, 512, 7, 7]\<rparr>))"
    if run: "filter_fn sd = Inr out" and d: "distinct (map fst sd)"
      and mem: "(''classifier.0.weight'', t) \<in> set sd"
      and nc: "\<forall>k2 \<in> fst ` set sd.
            k2 \<noteq> ''classifier.0.weight'' \<longrightarrow> rename_key k2 \<noteq> ''pre_logits.fc1.weight''"
  proof -
    from run have loop: "filter_loop sd [] = Inr out" by (simp add: filter_fn_def)
    from nc have nc': "\<forall>k2 \<in> fst ` set sd.
        k2 \<noteq> ''classifier.0.weight'' \<longrightarrow> rename_key k2 \<noteq> rename_key ''classifier.0.weight''"
      by (simp add: rename_first)
    from filter_loop_entry [OF loop d mem nc'] obtain v' where
      v': "reshape t [- 1, 512, 7, 7] = Inr v'" and m: "map_of out ''pre_logits.fc1.weight'' = Some v'"
      by (auto simp: remap_value_first rename_first)
    from v' have dv: "25088 dvd numel t" and eq: "v' = t\<lparr>shape := [numel t div 25088, 512, 7, 7]\<rparr>"
      by (auto simp: reshape_first split: if_splits)
    have "numel t div 25088 = n" if "shape t = [n, 25088]" for n
      using that by (simp add: numel_def)
    with dv eq m show ?thesis by auto
  qed
  have second: "4096 dvd numel t
        \<and> map_of out ''pre_logits.fc2.weight''
            = Some (t\<lparr>shape := [numel t div 4096, 4096, 1, 1]\<rparr>)
        \<and> (\<forall>n. shape t = [n, 4096] \<longrightarrow>
              map_of out ''pre_logits.fc2.weight'' = Some (t\<lparr>shape := [n, 4096, 1, 1]\<rparr>))"
    if run: "filter_fn sd = Inr out" and d: "distinct (map fst sd)"
      and mem: "(''classifier.3.weight'', t) \<in> set sd"
      and nc: "\<forall>k2 \<in> fst ` set sd.
            k2 \<noteq> ''classifier.3.weight'' \<longrightarrow> rename_key k2 \<noteq> ''pre_logits.fc2.weight''"
  proof -
    from run have loop: "filter_loop sd [] = Inr out" by (simp add: filter_fn_def)
    from nc have nc': "\<forall>k2 \<in> fst ` set sd.
        k2 \<noteq> ''classifier.3.weight'' \<longrightarrow> rename_key k2 \<noteq> rename_key ''classifier.3.weight''"
      by (simp add: rename_second)
    from filter_loop_entry [OF loop d mem nc'] obtain v' where
      v': "reshape t [- 1, 4096, 1, 1] = Inr v'" and m: "map_of out ''pre_logits.fc2.weight'' = Some v'"
      by (auto simp: remap_value_second rename_second)
    from v' have dv: "4096 dvd numel t" and eq: "v' = t\<lparr>shape := [numel t div 4096, 4096, 1, 1]\<rparr>"
      by (auto simp: reshape_second split: if_splits)
    have "numel t div 4096 = n" if "shape t = [n, 4096]" for n
      using that by (simp add: numel_def)
    with dv eq m show ?thesis by auto
  qed
  have third: "map_of out ''head.fc.weight'' = Some t"
    if run: "filter_fn sd = Inr out" and d: "distinct (map fst sd)"
      and mem: "(''classifier.6.weight'', t) \<in> set sd"
      and nc: "\<forall>k2 \<in> fst ` set sd.
            k2 \<noteq> ''classifier.6.weight'' \<longrightarrow> rename_key k2 \<noteq> ''head.fc.weight''"
  proof -
    from run have loop: "filter_loop sd [] = Inr out" by (simp add: filter_fn_def)
    from nc have nc': "\<forall>k2 \<in> fst ` set sd.
        k2 \<noteq> ''classifier.6.weight'' \<longrightarrow> rename_key k2 \<noteq> rename_key ''classifier.6.weight''"
      by (simp add: rename_third)
    from filter_loop_entry [OF loop d mem nc'] show ?thesis
      by (auto simp: remap_value_third rename_third)
  qed
  have returns: "\<exists>res. filter_fn sd = Inr res"
    if ok: "\<forall>(k, v) \<in> set sd.
          (str_in ''classifier.0.weight'' k \<longrightarrow> 25088 dvd numel v)
          \<and> (str_in ''classifier.3.weight'' k \<longrightarrow> 4096 dvd numel v)"
  proof -
    have "\<forall>(k, v) \<in> set sd. \<exists>v'. remap_value k v = Inr v'"
      using ok remap_value_returns by fastforce
    from filter_loop_returns [OF this] show ?thesis by (simp add: filter_fn_def)
  qed
  from first second third returns show ?thesis by blast
qed

theorem remap_legacy_weights_witness:
  "filter_fn
     [(''features.0.weight'', \<lparr>shape = [64, 3, 3, 3], elems = (0::nat)\<rparr>),
      (''classifier.0.weight'', \<lparr>shape = [4096, 25088], elems = 1\<rparr>),
      (''classifier.3.weight'', \<lparr>shape = [4096, 4096], elems = 2\<rparr>),
      (''classifier.6.weight'', \<lparr>shape = [1000, 4096], elems = 3\<rparr>)]
   = Inr [(''features.0.weight'', \<lparr>shape = [64, 3, 3, 3], elems = 0\<rparr>),
          (''pre_logits.fc1.weight'', \<lparr>shape = [4096, 512, 7, 7], elems = 1\<rparr>),
          (''pre_logits.fc2.weight'', \<lparr>shape = [4096, 4096, 1, 1], elems = 2\<rparr>),
          (''head.fc.weight'', \<lparr>shape = [1000, 4096], elems = 3\<rparr>)]
   \<and> map_of
        [(''features.0.weight'', \<lparr>shape = [64, 3, 3, 3], elems = (0::nat)\<rparr>),
         (''pre_logits.fc1.weight'', \<lparr>shape = [4096, 512, 7, 7], elems = 1\<rparr>),
         (''pre_logits.fc2.weight'', \<lparr>shape = [4096, 4096, 1, 1], elems = 2\<rparr>),
         (''head.fc.weight'', \<lparr>shape = [1000, 4096], elems = 3\<rparr>)]
        ''pre_logits.fc1.weight''
      = Some (\<lparr>shape = [4096, 25088], elems = 1\<rparr>\<lparr>shape := [4096, 512, 7, 7]\<rparr>)"
proof -
  let ?sd = "[(''features.0.weight'', \<lparr>shape = [64, 3, 3, 3], elems = (0::nat)\<rparr>),
      (''classifier.0.weight'', \<lparr>shape = [4096, 25088], elems = 1\<rparr>),
      (''classifier.3.weight'', \<lparr>shape = [4096, 4096], elems = 2\<rparr>),
      (''classifier.6.weight'', \<lparr>shape = [1000, 4096], elems = 3\<rparr>)]"
  let ?out = "[(''features.0.weight'', \<lparr>shape = [64, 3, 3, 3], elems = (0::nat)\<rparr>),
          (''pre_logits.fc1.weight'', \<lparr>shape = [4096, 512, 7, 7], elems = 1\<rparr>),
          (''pre_logits.fc2.weight'', \<lparr>shape = [4096, 4096, 1, 1], elems = 2\<rparr>),
          (''head.fc.weight'', \<lparr>shape = [1000, 4096], elems = 3\<rparr>)]"
  let ?t = "\<lparr>shape = [4096, 25088], elems = (1::nat)\<rparr>"
  have run: "filter_fn ?sd = Inr ?out"
    by (simp add: filter_fn_def remap_value_def reshape_def numel_def rename_key_def
          str_replace_def Let_def)
  have d: "distinct (map fst ?sd)" by simp
  have mem: "(''classifier.0.weight'', ?t) \<in> set ?sd" by simp
  have nc: "\<forall>k2 \<in> fst ` set ?sd.
      k2 \<noteq> ''classifier.0.weight'' \<longrightarrow> rename_key k2 \<noteq> ''pre_logits.fc1.weight''"
    by (simp add: rename_key_def str_replace_def)
  have sh: "shape ?t = [4096, 25088]" by simp
  from remap_legacy_weights [of ?sd ?out ?t] run d mem nc sh
  have "map_of ?out ''pre_logits.fc1.weight'' = Some (?t\<lparr>shape := [4096, 512, 7, 7]\<rparr>)"
    by blast
  with run show ?thesis by blast
qed

text \<open>
  Claim C4, as stated, fails. The key \<open>module.classifier.0.bias\<close> begins with none of the
  three legacy prefixes, yet it is renamed and is not a key of the output; the key
  \<open>module.pre_logits.fc1.bias\<close>, which is not renamed, is bound in the output to the value
  of the other item and not to its own.
\<close>

theorem remap_prefix_counterexample:
  "\<not> starts_legacy ''module.classifier.0.bias''
   \<and> \<not> starts_legacy ''module.pre_logits.fc1.bias''
   \<and> filter_fn
        [(''module.pre_logits.fc1.bias'', \<lparr>shape = [4096], elems = (1::nat)\<rparr>),
         (''module.classifier.0.bias'', \<lparr>shape = [4096], elems = 2\<rparr>)]
      = Inr [(''module.pre_logits.fc1.bias'', \<lparr>shape = [4096], elems = 2\<rparr>)]
   \<and> map_of [(''module.pre_logits.fc1.bias'', \<lparr>shape = [4096], elems = (2::nat)\<rparr>)]
        ''module.classifier.0.bias'' = None
   \<and> map_of [(''module.pre_logits.fc1.bias'', \<lparr>shape = [4096], elems = (2::nat)\<rparr>)]
        ''module.pre_logits.fc1.bias'' \<noteq> Some \<lparr>shape = [4096], elems = 1\<rparr>"
  by (simp add: starts_legacy_def filter_fn_def remap_value_def rename_key_def
        str_replace_def)

text \<open>
  Claim C4, amended. The remapper renames exactly the keys in which one of the three
  legacy strings occurs, at the start or elsewhere (a key that begins with one is among
  them), and the keys of the output are the renamed keys of the input. A key in which none
  occurs is a key of the output, bound to its own value when the keys of the input are
  distinct and no other key is renamed to it. A map with distinct keys in none of which a
  legacy string occurs is returned as it is, with no error.
\<close>

theorem remap_renames_containing_keys:
  "(rename_key k = k \<longleftrightarrow> \<not> has_legacy k)
   \<and> (starts_legacy k \<longrightarrow> has_legacy k)
   \<and> (filter_fn sd = Inr out \<longrightarrow> fst ` set out = rename_key ` fst ` set sd)
   \<and> (filter_fn sd = Inr out \<and> distinct (map fst sd) \<and> (k, v) \<in> set sd \<and> \<not> has_legacy k
        \<and> (\<forall>k2 \<in> fst ` set sd. k2 \<noteq> k \<longrightarrow> rename_key k2 \<noteq> k)
      \<longrightarrow> map_of out k = Some v)
   \<and> (distinct (map fst sd) \<and> (\<forall>k2 \<in> fst ` set sd. \<not> has_legacy k2)
      \<longrightarrow> filter_fn sd = Inr sd)"
proof -
  have keys: "fst ` set out = rename_key ` fst ` set sd" if "filter_fn sd = Inr out"
    using filter_loop_keys [of sd "[]" out] that by (simp add: filter_fn_def)
  have kept: "map_of out k = Some v"
    if run: "filter_fn sd = Inr out" and d: "distinct (map fst sd)" and mem: "(k, v) \<in> set sd"
      and nl: "\<not> has_legacy k"
      and nc: "\<forall>k2 \<in> fst ` set sd. k2 \<noteq> k \<longrightarrow> rename_key k2 \<noteq> k"
  proof -
    from run have loop: "filter_loop sd [] = Inr out" by (simp add: filter_fn_def)
    from nc have nc': "\<forall>k2 \<in> fst ` set sd. k2 \<noteq> k \<longrightarrow> rename_key k2 \<noteq> rename_key k"
      by (simp add: rename_key_id [OF nl])
    from filter_loop_entry [OF loop d mem nc'] show ?thesis
      by (simp add: rename_key_id [OF nl] remap_value_plain [OF nl])
  qed
  from keys kept rename_key_fixed_iff [of k] starts_legacy_has_legacy [of k]
    filter_fn_plain [of sd]
  show ?thesis by blast
qed

theorem remap_renames_containing_keys_witness:
  "filter_fn
     [(''features.0.weight'', \<lparr>shape = [64, 3, 3, 3], elems = (0::nat)\<rparr>),
      (''classifier.6.bias'', \<lparr>shape = [1000], elems = 1\<rparr>)]
   = Inr [(''features.0.weight'', \<lparr>shape = [64, 3, 3, 3], elems = 0\<rparr>),
          (''head.fc.bias'', \<lparr>shape = [1000], elems = 1\<rparr>)]
   \<and> map_of
        [(''features.0.weight'', \<lparr>shape = [64, 3, 3, 3], elems = (0::nat)\<rparr>),
         (''head.fc.bias'', \<lparr>shape = [1000], elems = 1\<rparr>)] ''features.0.weight''
      = Some \<lparr>shape = [64, 3, 3, 3], elems = 0\<rparr>
   \<and> filter_fn [(''features.0.weight'', \<lparr>shape = [64, 3, 3, 3], elems = (0::nat)\<rparr>)]
      = Inr [(''features.0.weight'', \<lparr>shape = [64, 3, 3, 3], elems = 0\<rparr>)]
   \<and> has_legacy ''classifier.6.bias''
   \<and> rename_key ''classifier.6.bias'' \<noteq> ''classifier.6.bias''"
proof -
  let ?sd = "[(''features.0.weight'', \<lparr>shape = [64, 3, 3, 3], elems = (0::nat)\<rparr>),
      (''classifier.6.bias'', \<lparr>shape = [1000], elems = 1\<rparr>)]"
  let ?out = "[(''features.0.weight'', \<lparr>shape = [64, 3, 3, 3], elems = (0::nat)\<rparr>),
          (''head.fc.bias'', \<lparr>shape = [1000], elems = 1\<rparr>)]"
  let ?v = "\<lparr>shape = [64, 3, 3, 3], elems = (0::nat)\<rparr>"
  let ?plain = "[(''features.0.weight'', ?v)]"
  have run: "filter_fn ?sd = Inr ?out"
    by (simp add: filter_fn_def remap_value_def rename_key_def str_replace_def)
  have d: "distinct (map fst ?sd)" by simp
  have mem: "(''features.0.weight'', ?v) \<in> set ?sd" by simp
  have nl: "\<not> has_legacy ''features.0.weight''" by (simp add: has_legacy_def)
  have nc: "\<forall>k2 \<in> fst ` set ?sd.
      k2 \<noteq> ''features.0.weight'' \<longrightarrow> rename_key k2 \<noteq> ''features.0.weight''"
    by (simp add: rename_key_def str_replace_def)
  from remap_renames_containing_keys [of "''features.0.weight''" ?sd ?out ?v] run d mem nl nc
  have kept: "map_of ?out ''features.0.weight'' = Some ?v" by blast
  have d2: "distinct (map fst ?plain)" by simp
  have nl2: "\<forall>k2 \<in> fst ` set ?plain. \<not> has_legacy k2" by (simp add: has_legacy_def)
  from remap_renames_containing_keys [of "''features.0.weight''" ?plain "[]" ?v] d2 nl2
  have plain: "filter_fn ?plain = Inr ?plain" by blast
  have st: "starts_legacy ''classifier.6.bias''" by (simp add: starts_legacy_def)
  from remap_renames_containing_keys [of "''classifier.6.bias''" "[]" "[]" ?v] st
  have leg: "has_legacy ''classifier.6.bias''"
    and ren: "rename_key ''classifier.6.bias'' \<noteq> ''classifier.6.bias''"
    by blast+
  from run kept plain leg ren show ?thesis by blast
qed

text \<open>
  Claim C5, as stated, fails. The third replacement turns the key
  \<open>classifier.6lassifier.0\<close> into \<open>head.fclassifier.0\<close>, in which the first legacy string
  occurs, so the second pass renames the key again.
\<close>

theorem remap_twice_counterexample:
  "filter_fn [(''classifier.6lassifier.0'', \<lparr>shape = [1], elems = (0::nat)\<rparr>)]
     = Inr [(''head.fclassifier.0'', \<lparr>shape = [1], elems = 0\<rparr>)]
   \<and> filter_fn [(''head.fclassifier.0'', \<lparr>shape = [1], elems = (0::nat)\<rparr>)]
     = Inr [(''head.fpre_logits.fc1'', \<lparr>shape = [1], elems = 0\<rparr>)]
   \<and> filter_fn [(''head.fclassifier.0'', \<lparr>shape = [1], elems = (0::nat)\<rparr>)]
     \<noteq> Inr [(''head.fclassifier.0'', \<lparr>shape = [1], elems = 0\<rparr>)]"
  by (simp add: filter_fn_def remap_value_def rename_key_def str_replace_def)

text \<open>
  Claim C5, amended. When the remapper returns a map, applying it to that map returns the
  same map if and only if no legacy string occurs in a key of that map.
\<close>

theorem remap_twice:
  "filter_fn sd = Inr out \<Longrightarrow>
   (filter_fn out = Inr out \<longleftrightarrow> (\<forall>k \<in> fst ` set out. \<not> has_legacy k))"
proof
  assume run: "filter_fn sd = Inr out" and again: "filter_fn out = Inr out"
  show "\<forall>k \<in> fst ` set out. \<not> has_legacy k"
  proof (rule ccontr)
    assume "\<not> (\<forall>k \<in> fst ` set out. \<not> has_legacy k)"
    then have "\<exists>k \<in> fst ` set out. has_legacy k" by blast
    then have "rename_key ` fst ` set out \<noteq> fst ` set out"
      by (rule rename_not_onto [rotated]) simp
    moreover have "fst ` set out = rename_key ` fst ` set out"
      using filter_loop_keys [of out "[]" out] again by (simp add: filter_fn_def)
    ultimately show False by simp
  qed
next
  assume run: "filter_fn sd = Inr out" and clean: "\<forall>k \<in> fst ` set out. \<not> has_legacy k"
  from filter_fn_plain [OF filter_fn_distinct [OF run] clean]
  show "filter_fn out = Inr out" .
qed

theorem remap_twice_witness:
  "filter_fn
     [(''features.0.weight'', \<lparr>shape = [64, 3, 3, 3], elems = (0::nat)\<rparr>),
      (''classifier.0.weight'', \<lparr>shape = [4096, 25088], elems = 1\<rparr>),
      (''classifier.3.bias'', \<lparr>shape = [4096], elems = 2\<rparr>),
      (''classifier.6.weight'', \<lparr>shape = [1000, 4096], elems = 3\<rparr>)]
   = Inr [(''features.0.weight'', \<lparr>shape = [64, 3, 3, 3], elems = 0\<rparr>),
          (''pre_logits.fc1.weight'', \<lparr>shape = [4096, 512, 7, 7], elems = 1\<rparr>),
          (''pre_logits.fc2.bias'', \<lparr>shape = [4096], elems = 2\<rparr>),
          (''head.fc.weight'', \<lparr>shape = [1000, 4096], elems = 3\<rparr>)]
   \<and> filter_fn
        [(''features.0.weight'', \<lparr>shape = [64, 3, 3, 3], elems = (0::nat)\<rparr>),
         (''pre_logits.fc1.weight'', \<lparr>shape = [4096, 512, 7, 7], elems = 1\<rparr>),
         (''pre_logits.fc2.bias'', \<lparr>shape = [4096], elems = 2\<rparr>),
         (''head.fc.weight'', \<lparr>shape = [1000, 4096], elems = 3\<rparr>)]
      = Inr [(''features.0.weight'', \<lparr>shape = [64, 3, 3, 3], elems = 0\<rparr>),
             (''pre_logits.fc1.weight'', \<lparr>shape = [4096, 512, 7, 7], elems = 1\<rparr>),
             (''pre_logits.fc2.bias'', \<lparr>shape = [4096], elems = 2\<rparr>),
             (''head.fc.weight'', \<lparr>shape = [1000, 4096], elems = 3\<rparr>)]"
proof -
  let ?sd = "[(''features.0.weight'', \<lparr>shape = [64, 3, 3, 3], elems = (0::nat)\<rparr>),
      (''classifier.0.weight'', \<lparr>shape = [4096, 25088], elems = 1\<rparr>),
      (''classifier.3.bias'', \<lparr>shape = [4096], elems = 2\<rparr>),
      (''classifier.6.weight'', \<lparr>shape = [1000, 4096], elems = 3\<rparr>)]"
  let ?out = "[(''features.0.weight'', \<lparr>shape = [64, 3, 3, 3], elems = (0::nat)\<rparr>),
          (''pre_logits.fc1.weight'', \<lparr>shape = [4096, 512, 7, 7], elems = 1\<rparr>),
          (''pre_logits.fc2.bias'', \<lparr>shape = [4096], elems = 2\<rparr>),
          (''head.fc.weight'', \<lparr>shape = [1000, 4096], elems = 3\<rparr>)]"
  have run: "filter_fn ?sd = Inr ?out"
    by (simp add: filter_fn_def remap_value_def reshape_def numel_def rename_key_def
          str_replace_def Let_def)
  have clean: "\<forall>k \<in> fst ` set ?out. \<not> has_legacy k"
    by (simp add: has_legacy_def)
  from remap_twice [OF run] clean have "filter_fn ?out = Inr ?out" by blast
  with run show ?thesis by blast
qed

end
